theory Spec2Isabelle
  imports Complex_Main "HOL-Library.AList"
begin

section \<open>Result extraction of the QPU client (\<open>pyquil/api/_qpu.py\<close>)\<close>

text \<open>
  The development embeds \<open>decode_buffer\<close>, \<open>_extract_memory_regions\<close> (with its local
  \<open>alloc\<close>) and the result-assembling part of \<open>QPU.get_result\<close>.

  Python dictionaries keep insertion order and the code depends on it
  (\<open>next(iter(sources))\<close>), so a dictionary is an association list in insertion order whose
  keys are distinct; \<open>d[k]\<close> is \<open>map_of d k\<close> with \<open>KeyError\<close> for \<open>None\<close>, and \<open>d[k] = v\<close> is
  \<open>AList.update k v d\<close> (overwrite in place, or append a new key at the end).

  Every exception of the source is a value of \<open>py_error\<close>, returned as \<open>Inl\<close>.
\<close>

subsection \<open>Errors\<close>

datatype py_error =
    StopIteration
    \<comment> \<open>\<open>next(iter(d))\<close> on an empty dictionary\<close>
  | KeyError string
    \<comment> \<open>a dictionary lookup with a missing key\<close>
  | UnexpectedMemoryType string
    \<comment> \<open>\<open>ValueError(f"Unexpected memory type {spec.type}.")\<close> raised by \<open>alloc\<close>\<close>
  | RegionOverflow string nat nat nat
    \<comment> \<open>\<open>ValueError(f"Attempted to fill {mref_name}[{mref.offset}, {end})but the declared
        region has width {region_width}.")\<close>: region, offset, end, declared width\<close>
  | BroadcastError nat nat
    \<comment> \<open>numpy's \<open>ValueError\<close> of a slice assignment whose source has \<open>m\<close> rows and whose
        target has \<open>n\<close> rows, with \<open>m \<noteq> n\<close> and \<open>m \<noteq> 1\<close>\<close>
  | RegisterError
    \<comment> \<open>an accessor of the external register type refused the payload\<close>

subsection \<open>Data\<close>

text \<open>
  \<open>ParameterSpec\<close> (rpcq) and \<open>MemoryReference\<close> (pyquil) are declared outside this file; the
  code reads \<open>spec.type\<close>, \<open>spec.length\<close>, \<open>mref.name\<close> and \<open>mref.offset\<close>. Lengths and offsets
  are non-negative there, hence \<open>nat\<close>. Two references are the same dictionary key when
  name and offset agree.
\<close>

record parameter_spec =
  spec_type :: string
  spec_length :: nat

record memory_reference =
  name :: string
  offset :: nat

text \<open>
  A numpy array of one or two axes. \<open>Array2 w rows\<close> has shape \<open>(length rows, w)\<close>; the
  width is kept because an array without rows still has one.
\<close>

datatype 'a nparray = Array1 "'a list" | Array2 nat "'a list list"

fun shape0 :: "'a nparray \<Rightarrow> nat" where
  "shape0 (Array1 xs) = length xs"
| "shape0 (Array2 w rows) = length rows"


text \<open>
  A decoded buffer is an \<open>int32\<close> array or a \<open>complex64\<close> array. Samples are kept as the
  numbers they denote (an \<open>int\<close>, a \<open>complex\<close>): the code does no arithmetic on them.
\<close>

datatype ndarray = Int32 "int nparray" | Complex64 "complex nparray"

fun buffer_shape0 :: "ndarray \<Rightarrow> nat" where
  "buffer_shape0 (Int32 a) = shape0 a"
| "buffer_shape0 (Complex64 a) = shape0 a"


text \<open>An element of a real-valued two-axis array: an integer or a float.\<close>

datatype scalar = IntVal int | FloatVal real

text \<open>
  An assembled region: an \<open>int64\<close> or \<open>float64\<close> array of shape \<open>(num_shots, length)\<close>.
  \<open>np.ndarray(shape, dtype)\<close> does not initialise its memory, so a cell is \<open>None\<close> until
  something is stored in it.
\<close>

datatype np_dtype = int64 | float64

record region =
  np_dtype :: np_dtype
  shape :: "nat \<times> nat"
  cells :: "scalar option list list"

type_synonym sources = "(string \<times> (string \<times> memory_reference list) list) list"

subsection \<open>\<open>decode_buffer\<close>\<close>

text \<open>
  \<open>ExecutionResult\<close> and its register (qcs_sdk) are declared outside this file. The code
  reads \<open>buffer.dtype\<close> and calls \<open>buffer.data.to_complex32()\<close> or \<open>buffer.data.to_i32()\<close>;
  what the two accessors answer for a payload is a parameter of the model, an exception
  included.
\<close>

record register =
  to_complex32 :: "py_error + complex list"
  to_i32 :: "py_error + int list"

record execution_result =
  dtype :: string
  data :: register

definition decode_buffer :: "execution_result \<Rightarrow> py_error + ndarray" where
  "decode_buffer buffer =
     (if dtype buffer = ''complex'' then
        (case to_complex32 (data buffer) of
           Inl e \<Rightarrow> Inl e
         | Inr zs \<Rightarrow> Inr (Complex64 (Array1 zs)))
      else if dtype buffer = ''integer'' then
        (case to_i32 (data buffer) of
           Inl e \<Rightarrow> Inl e
         | Inr xs \<Rightarrow> Inr (Int32 (Array1 xs)))
      else Inr (Int32 (Array1 [])))"

subsection \<open>\<open>alloc\<close>\<close>

definition dtype_table :: "(string \<times> np_dtype) list" where
  "dtype_table =
     [(''BIT'', int64), (''INTEGER'', int64), (''REAL'', float64), (''FLOAT'', float64)]"

definition alloc :: "parameter_spec \<Rightarrow> nat \<Rightarrow> py_error + region" where
  "alloc spec num_shots =
     (case map_of dtype_table (spec_type spec) of
        None \<Rightarrow> Inl (UnexpectedMemoryType (spec_type spec))
      | Some d \<Rightarrow>
          Inr \<lparr>np_dtype = d, shape = (num_shots, spec_length spec),
               cells = replicate num_shots (replicate (spec_length spec) None)\<rparr>)"

subsection \<open>Filtering and grouping the readout sources\<close>

text \<open>
  Lines 77 to 83. \<open>sources\<close> starts with one empty \<open>defaultdict(list)\<close> per descriptor; an
  entry of \<open>ro_sources\<close> whose region is not declared is skipped, any other is appended to
  the list at \<open>sources[mref.name][key]\<close>, which the \<open>defaultdict\<close> creates when missing.
\<close>

definition init_sources :: "(string \<times> parameter_spec) list \<Rightarrow> sources" where
  "init_sources memory_descriptors = map (\<lambda>(mem_desc, _). (mem_desc, [])) memory_descriptors"

definition add_source :: "memory_reference \<times> string \<Rightarrow> sources \<Rightarrow> sources" where
  "add_source entry sources =
     (case entry of (mref, key) \<Rightarrow>
        (case map_of sources (name mref) of
           None \<Rightarrow> sources
         | Some mref_dict \<Rightarrow>
             AList.update (name mref)
               (AList.update key
                  ((case map_of mref_dict key of None \<Rightarrow> [] | Some mref_list \<Rightarrow> mref_list) @ [mref])
                  mref_dict)
               sources))"

definition group_sources ::
  "(string \<times> parameter_spec) list \<Rightarrow> (memory_reference \<times> string) list \<Rightarrow> sources" where
  "group_sources memory_descriptors ro_sources =
     fold add_source ro_sources (init_sources memory_descriptors)"

subsection \<open>The number of shots\<close>

text \<open>Lines 89 to 91: the first buffer key of the first region decides.\<close>

definition infer_num_shots :: "sources \<Rightarrow> (string \<times> ndarray) list \<Rightarrow> py_error + nat" where
  "infer_num_shots sources buffers =
     (case sources of
        [] \<Rightarrow> Inl StopIteration
      | (mref_name, mref_dict) # _ \<Rightarrow>
          (case mref_dict of
             [] \<Rightarrow> Inl StopIteration
           | (buf_key, mref_list) # _ \<Rightarrow>
               (case map_of buffers buf_key of
                  None \<Rightarrow> Inl (KeyError buf_key)
                | Some b \<Rightarrow> Inr (buffer_shape0 b div length mref_list))))"

subsection \<open>Preparing a buffer\<close>

text \<open>
  Lines 100 to 105: a one-axis buffer becomes a column (\<open>buf[:, None]\<close>); a complex buffer
  is replaced by \<open>np.column_stack((buf.real, buf.imag))\<close>, all real parts of a row followed
  by all its imaginary parts. The result is the width and the rows.
\<close>

fun as_columns :: "'a nparray \<Rightarrow> nat \<times> 'a list list" where
  "as_columns (Array1 xs) = (1, map (\<lambda>x. [x]) xs)"
| "as_columns (Array2 w rows) = (w, rows)"

definition column_stack_real_imag :: "complex list \<Rightarrow> scalar list" where
  "column_stack_real_imag row = map (\<lambda>z. FloatVal (Re z)) row @ map (\<lambda>z. FloatVal (Im z)) row"

fun prepare_buffer :: "ndarray \<Rightarrow> nat \<times> scalar list list" where
  "prepare_buffer (Int32 a) =
     (case as_columns a of (w, rows) \<Rightarrow> (w, map (map IntVal) rows))"
| "prepare_buffer (Complex64 a) =
     (case as_columns a of (w, rows) \<Rightarrow> (w + w, map column_stack_real_imag rows))"

subsection \<open>Storing a lane\<close>

text \<open>\<open>buf[i::num_lanes, :]\<close>: the rows \<open>i\<close>, \<open>i + num_lanes\<close>, \<open>i + 2 * num_lanes\<close>, ...\<close>

definition strided :: "nat \<Rightarrow> nat \<Rightarrow> 'a list \<Rightarrow> 'a list" where
  "strided i num_lanes rows =
     map (\<lambda>j. rows ! (i + j * num_lanes))
       [0 ..< (length rows - i + num_lanes - 1) div num_lanes]"

text \<open>
  Storing into an array converts to its element type: an integer stays an integer in an
  \<open>int64\<close> array and becomes the same number in a \<open>float64\<close> array, a float stays in a
  \<open>float64\<close> array and is truncated towards zero in an \<open>int64\<close> array. A float
  whose truncation is outside the range of \<open>int64\<close> is stored as \<open>- 2 ^ 63\<close>, which is
  what the conversion of numpy gives there.
\<close>

definition truncate_real :: "real \<Rightarrow> int" where
  "truncate_real r = (if 0 \<le> r then \<lfloor>r\<rfloor> else \<lceil>r\<rceil>)"

definition float_to_int64 :: "real \<Rightarrow> int" where
  "float_to_int64 r =
     (if - (2 ^ 63) \<le> truncate_real r \<and> truncate_real r < 2 ^ 63 then truncate_real r
      else - (2 ^ 63))"

fun cast :: "np_dtype \<Rightarrow> scalar \<Rightarrow> scalar" where
  "cast int64 (IntVal v) = IntVal v"
| "cast int64 (FloatVal r) = IntVal (float_to_int64 r)"
| "cast float64 (IntVal v) = FloatVal (of_int v)"
| "cast float64 (FloatVal r) = FloatVal r"

definition store_row ::
  "np_dtype \<Rightarrow> nat \<Rightarrow> scalar list \<Rightarrow> scalar option list \<Rightarrow> scalar option list" where
  "store_row d off src row =
     take off row @ map (\<lambda>v. Some (cast d v)) src @ drop (off + length src) row"

text \<open>
  \<open>regions[mref_name][:, off:end] = src\<close> on line 113, for a source of the target's width.
  numpy stores row by row when the row counts agree, repeats a single source row over
  every target row, and raises otherwise.
\<close>

definition assign_columns :: "region \<Rightarrow> nat \<Rightarrow> scalar list list \<Rightarrow> py_error + region" where
  "assign_columns r off src =
     (if length src = fst (shape r) then
        Inr (r\<lparr>cells := map2 (\<lambda>s row. store_row (np_dtype r) off s row) src (cells r)\<rparr>)
      else
        (case src of
           [s] \<Rightarrow> Inr (r\<lparr>cells := map (store_row (np_dtype r) off s) (cells r)\<rparr>)
         | _ \<Rightarrow> Inl (BroadcastError (length src) (fst (shape r)))))"

text \<open>Lines 106 to 113, the loop over \<open>enumerate(sorted_mref)\<close> from index \<open>i\<close> on.\<close>

fun fill_lanes ::
  "string \<Rightarrow> nat \<Rightarrow> nat \<Rightarrow> nat \<Rightarrow> scalar list list \<Rightarrow> nat \<Rightarrow> memory_reference list \<Rightarrow>
   region \<Rightarrow> py_error + region" where
  "fill_lanes mref_name region_width num_lanes width buf i [] r = Inr r"
| "fill_lanes mref_name region_width num_lanes width buf i (mref # rest) r =
     (if offset mref + width > region_width then
        Inl (RegionOverflow mref_name (offset mref) (offset mref + width) region_width)
      else
        (case assign_columns r (offset mref) (strided i num_lanes buf) of
           Inl e \<Rightarrow> Inl e
         | Inr r' \<Rightarrow>
             fill_lanes mref_name region_width num_lanes width buf (Suc i) rest r'))"

text \<open>
  Lines 96 to 113, the loop over \<open>mref_dict.items()\<close>. The references of one lane set have
  the same name and are distinct dictionary keys, so their offsets differ and sorting the
  pairs \<open>(offset, mref)\<close> is sorting by offset.
\<close>

fun fill_lane_sets ::
  "string \<Rightarrow> nat \<Rightarrow> (string \<times> ndarray) list \<Rightarrow> (string \<times> memory_reference list) list \<Rightarrow>
   region \<Rightarrow> py_error + region" where
  "fill_lane_sets mref_name region_width buffers [] r = Inr r"
| "fill_lane_sets mref_name region_width buffers ((key, mref_list) # rest) r =
     (let num_lanes = length mref_list;
          sorted_mref = sort_key offset mref_list
      in case map_of buffers key of
           None \<Rightarrow> Inl (KeyError key)
         | Some b \<Rightarrow>
             (case prepare_buffer b of (width, buf) \<Rightarrow>
                (case fill_lanes mref_name region_width num_lanes width buf 0 sorted_mref r of
                   Inl e \<Rightarrow> Inl e
                 | Inr r' \<Rightarrow> fill_lane_sets mref_name region_width buffers rest r')))"

text \<open>
  Lines 93 to 113, the loop over \<open>sources.items()\<close>. The keys of \<open>sources\<close> are distinct, so
  each \<open>regions[mref_name] = ...\<close> adds a new key after the ones already there.
\<close>

fun assemble_regions ::
  "(string \<times> parameter_spec) list \<Rightarrow> (string \<times> ndarray) list \<Rightarrow> nat \<Rightarrow> sources \<Rightarrow>
   py_error + (string \<times> region) list" where
  "assemble_regions memory_descriptors buffers num_shots [] = Inr []"
| "assemble_regions memory_descriptors buffers num_shots ((mref_name, mref_dict) # rest) =
     (case map_of memory_descriptors mref_name of
        None \<Rightarrow> Inl (KeyError mref_name)
      | Some spec \<Rightarrow>
          (case alloc spec num_shots of
             Inl e \<Rightarrow> Inl e
           | Inr r \<Rightarrow>
               (case fill_lane_sets mref_name (spec_length spec) buffers mref_dict r of
                  Inl e \<Rightarrow> Inl e
                | Inr r' \<Rightarrow>
                    (case assemble_regions memory_descriptors buffers num_shots rest of
                       Inl e \<Rightarrow> Inl e
                     | Inr regions \<Rightarrow> Inr ((mref_name, r') # regions)))))"

subsection \<open>\<open>_extract_memory_regions\<close>\<close>

definition extract_memory_regions ::
  "(string \<times> parameter_spec) list \<Rightarrow> (memory_reference \<times> string) list \<Rightarrow>
   (string \<times> ndarray) list \<Rightarrow> py_error + (string \<times> region) list" where
  "extract_memory_regions memory_descriptors ro_sources buffers =
     (let sources = group_sources memory_descriptors ro_sources
      in case infer_num_shots sources buffers of
           Inl e \<Rightarrow> Inl e
         | Inr num_shots \<Rightarrow> assemble_regions memory_descriptors buffers num_shots sources)"

subsection \<open>\<open>QPU.get_result\<close>\<close>

text \<open>
  Lines 221 to 232. What \<open>retrieve_results\<close> answered is a parameter: its buffers, a
  dictionary, in iteration order.
\<close>

fun decode_all ::
  "(string \<times> execution_result) list \<Rightarrow> py_error + (string \<times> ndarray) list" where
  "decode_all [] = Inr []"
| "decode_all ((k, v) # rest) =
     (case decode_buffer v of
        Inl e \<Rightarrow> Inl e
      | Inr a \<Rightarrow> (case decode_all rest of Inl e \<Rightarrow> Inl e | Inr as \<Rightarrow> Inr ((k, a) # as)))"

definition zeros_0_0 :: region where
  "zeros_0_0 = \<lparr>np_dtype = int64, shape = (0, 0), cells = []\<rparr>"

definition get_result ::
  "(string \<times> parameter_spec) list \<Rightarrow> (memory_reference \<times> string) list \<Rightarrow>
   (string \<times> execution_result) list \<Rightarrow> py_error + (string \<times> region) list" where
  "get_result memory_descriptors ro_sources result_buffers =
     (case decode_all result_buffers of
        Inl e \<Rightarrow> Inl e
      | Inr decoded_buffers \<Rightarrow>
          if length decoded_buffers \<noteq> 0 then
            extract_memory_regions memory_descriptors ro_sources decoded_buffers
          else if ro_sources = [] then Inr [(''ro'', zeros_0_0)]
          else Inr [])"

subsection \<open>Notions used to state the properties\<close>

text \<open>
  The references of \<open>ro_sources\<close> that name region \<open>nm\<close> and read buffer \<open>key\<close>, in
  dictionary order, and the buffer key of the first reference that names \<open>nm\<close>.
\<close>

definition lane_refs ::
  "string \<Rightarrow> string \<Rightarrow> (memory_reference \<times> string) list \<Rightarrow> memory_reference list" where
  "lane_refs nm key ro_sources =
     map fst (filter (\<lambda>e. name (fst e) = nm \<and> snd e = key) ro_sources)"

definition first_key :: "string \<Rightarrow> (memory_reference \<times> string) list \<Rightarrow> string option" where
  "first_key nm ro_sources =
     (case filter (\<lambda>e. name (fst e) = nm) ro_sources of [] \<Rightarrow> None | e # _ \<Rightarrow> Some (snd e))"


text \<open>The first key of a dictionary.\<close>

definition head_key :: "('k \<times> 'v) list \<Rightarrow> 'k option" where
  "head_key d = (case d of [] \<Rightarrow> None | e # _ \<Rightarrow> Some (fst e))"

text \<open>
  What the grouping loop has built after the entries \<open>ro\<close>: the dictionary of each region
  has distinct buffer keys, starts with the key of the first reference to the region, and
  maps each key to the references that name the region and read that buffer.
\<close>

definition grouped :: "(memory_reference \<times> string) list \<Rightarrow> sources \<Rightarrow> bool" where
  "grouped ro S \<longleftrightarrow>
     (\<forall>nm d. map_of S nm = Some d \<longrightarrow>
        distinct (map fst d) \<and> head_key d = first_key nm ro \<and>
        (\<forall>key. map_of d key =
           (if lane_refs nm key ro = [] then None else Some (lane_refs nm key ro))))"

text \<open>
  One round of the loop over \<open>sources.items()\<close>: region \<open>reg\<close> is what allocating for the
  descriptor of \<open>src\<close> and storing the lane sets of \<open>src\<close> gives.
\<close>

definition assembled ::
  "(string \<times> parameter_spec) list \<Rightarrow> (string \<times> ndarray) list \<Rightarrow> nat \<Rightarrow>
   string \<times> (string \<times> memory_reference list) list \<Rightarrow> string \<times> region \<Rightarrow> bool" where
  "assembled md bufs n src reg \<longleftrightarrow>
     fst reg = fst src \<and>
     (\<exists>spec r0. map_of md (fst src) = Some spec \<and> alloc spec n = Inr r0 \<and>
        fill_lane_sets (fst src) (spec_length spec) bufs (snd src) r0 = Inr (snd reg))"

section \<open>Grouping keeps the declared regions\<close>

lemma map_of_keys: "map_of al k = Some v \<Longrightarrow> k \<in> set (map fst al)"
  by (metis map_of_SomeD fst_conv image_eqI set_map)

lemma add_source_keys: "map fst (add_source e S) = map fst S"
  by (cases e)
    (auto simp: add_source_def AList.update_keys map_of_eq_None_iff split: option.splits
      dest: map_of_keys)

lemma fold_add_source_keys: "map fst (fold add_source ro S) = map fst S"
  by (induction ro arbitrary: S) (simp_all add: add_source_keys)

lemma init_sources_keys: "map fst (init_sources md) = map fst md"
  by (induction md) (auto simp: init_sources_def)

lemma group_sources_keys: "map fst (group_sources md ro) = map fst md"
  by (simp add: group_sources_def fold_add_source_keys init_sources_keys)

lemma add_source_stale: "name (fst e) \<notin> set (map fst S) \<Longrightarrow> add_source e S = S"
  by (cases e) (auto simp: add_source_def split: option.splits dest: map_of_keys)

lemma fold_add_source_stale:
  "name (fst e) \<notin> set (map fst S) \<Longrightarrow>
   fold add_source (ro1 @ e # ro2) S = fold add_source (ro1 @ ro2) S"
  by (simp add: add_source_stale fold_add_source_keys)

lemma fold_add_source_head:
  "\<forall>e \<in> set ro. name (fst e) \<noteq> nm \<Longrightarrow>
   \<exists>S''. fold add_source ro ((nm, d) # S') = (nm, d) # S''"
proof (induction ro arbitrary: S')
  case Nil
  then show ?case by simp
next
  case (Cons e ro)
  obtain m k where e: "e = (m, k)" by (cases e)
  from Cons.prems e have ne: "name m \<noteq> nm" by simp
  then have "\<exists>T. add_source e ((nm, d) # S') = (nm, d) # T"
    by (auto simp: add_source_def e split: option.splits)
  then obtain T where "add_source e ((nm, d) # S') = (nm, d) # T" ..
  moreover from Cons.prems have "\<forall>e \<in> set ro. name (fst e) \<noteq> nm" by simp
  ultimately show ?case using Cons.IH [of T] by simp
qed

lemma lane_refs_snoc:
  "lane_refs nm key (ro @ [(m, k)]) =
     lane_refs nm key ro @ (if name m = nm \<and> k = key then [m] else [])"
  by (simp add: lane_refs_def)

lemma first_key_snoc:
  "first_key nm (ro @ [(m, k)]) =
     (case first_key nm ro of Some k' \<Rightarrow> Some k'
      | None \<Rightarrow> if name m = nm then Some k else None)"
  by (simp add: first_key_def split: list.splits)

lemma head_key_update:
  "head_key (AList.update k v d) = (case head_key d of None \<Rightarrow> Some k | Some k' \<Rightarrow> Some k')"
  by (cases d) (auto simp: head_key_def)

lemma init_sources_empty: "map_of (init_sources md) nm = Some d \<Longrightarrow> d = []"
  by (induction md) (auto simp: init_sources_def split: if_splits)

lemma grouped_init: "grouped [] (init_sources md)"
  by (auto simp: grouped_def head_key_def first_key_def lane_refs_def dest!: init_sources_empty)

lemma grouped_step:
  assumes "grouped ro S"
  shows "grouped (ro @ [(m, k)]) (add_source (m, k) S)"
proof (cases "map_of S (name m)")
  case None
  then have same: "add_source (m, k) S = S" by (simp add: add_source_def)
  have "name m \<noteq> nm" if "map_of S nm = Some d" for nm d
    using that None by auto
  then show ?thesis
    using assms None unfolding grouped_def same
    by (auto simp: lane_refs_snoc first_key_snoc split: option.splits)
next
  case (Some dm)
  define old where "old = (case map_of dm k of None \<Rightarrow> [] | Some l \<Rightarrow> l)"
  define d' where "d' = AList.update k (old @ [m]) dm"
  have S': "add_source (m, k) S = AList.update (name m) d' S"
    by (simp add: add_source_def Some d'_def old_def)
  from assms Some have dm: "distinct (map fst dm)" "head_key dm = first_key (name m) ro"
    "\<And>key. map_of dm key =
       (if lane_refs (name m) key ro = [] then None else Some (lane_refs (name m) key ro))"
    unfolding grouped_def by blast+
  have old: "old = lane_refs (name m) k ro"
    unfolding old_def using dm(3) [of k] by (simp split: if_splits)
  show ?thesis
    unfolding grouped_def
  proof (intro allI impI)
    fix nm d
    assume "map_of (add_source (m, k) S) nm = Some d"
    then have d: "(if nm = name m then Some d' else map_of S nm) = Some d"
      by (simp add: S' AList.update_conv')
    show "distinct (map fst d) \<and> head_key d = first_key nm (ro @ [(m, k)]) \<and>
        (\<forall>key. map_of d key =
           (if lane_refs nm key (ro @ [(m, k)]) = [] then None
            else Some (lane_refs nm key (ro @ [(m, k)]))))"
    proof (cases "nm = name m")
      case True
      with d have [simp]: "d = d'" by simp
      have "distinct (map fst d')"
        unfolding d'_def using dm(1) by (rule AList.distinct_update)
      moreover have "head_key d' = first_key nm (ro @ [(m, k)])"
        unfolding d'_def by (simp add: head_key_update dm(2) first_key_snoc True split: option.splits)
      moreover have "map_of d' key =
           (if lane_refs nm key (ro @ [(m, k)]) = [] then None
            else Some (lane_refs nm key (ro @ [(m, k)])))" for key
        unfolding d'_def by (simp add: AList.update_conv' lane_refs_snoc True old dm(3))
      ultimately show ?thesis by simp
    next
      case False
      with d have "map_of S nm = Some d" by simp
      with assms show ?thesis
        unfolding grouped_def using False
        by (auto simp: lane_refs_snoc first_key_snoc split: option.splits)
    qed
  qed
qed

lemma grouped_fold: "grouped ro (fold add_source ro (init_sources md))"
proof (induction ro rule: rev_induct)
  case Nil
  show ?case by (simp add: grouped_init)
next
  case (snoc e ro)
  then show ?case by (cases e) (simp add: grouped_step)
qed

lemma grouped_group_sources: "grouped ro (group_sources md ro)"
  by (simp add: group_sources_def grouped_fold)

lemma group_sources_head:
  assumes "first_key nm ro = Some key"
  shows "\<exists>d S'. group_sources ((nm, spec) # rest) ro =
      (nm, (key, lane_refs nm key ro) # d) # S' \<and> lane_refs nm key ro \<noteq> []"
proof -
  have "map fst (group_sources ((nm, spec) # rest) ro) = nm # map fst rest"
    by (simp add: group_sources_keys)
  then obtain dd S' where S: "group_sources ((nm, spec) # rest) ro = (nm, dd) # S'"
    by (cases "group_sources ((nm, spec) # rest) ro") auto
  then have "map_of (group_sources ((nm, spec) # rest) ro) nm = Some dd" by simp
  with grouped_group_sources [of ro "(nm, spec) # rest"]
  have hk: "head_key dd = first_key nm ro"
    and lk: "map_of dd key =
      (if lane_refs nm key ro = [] then None else Some (lane_refs nm key ro))"
    unfolding grouped_def by blast+
  from hk assms obtain l d where dd: "dd = (key, l) # d"
    by (cases dd) (auto simp: head_key_def)
  from lk dd have "lane_refs nm key ro \<noteq> []" "l = lane_refs nm key ro"
    by (auto split: if_splits)
  with S dd show ?thesis by simp
qed

lemma infer_num_shots_head:
  assumes "first_key nm ro = Some key" "map_of bufs key = Some b"
  shows "infer_num_shots (group_sources ((nm, spec) # rest) ro) bufs =
    Inr (buffer_shape0 b div length (lane_refs nm key ro))"
proof -
  from group_sources_head [OF assms(1)] obtain d S'
    where "group_sources ((nm, spec) # rest) ro = (nm, (key, lane_refs nm key ro) # d) # S'"
    by blast
  then show ?thesis using assms(2) by (simp add: infer_num_shots_def)
qed

lemma sort_key_head_least:
  assumes "m \<in> set ms" "\<forall>x \<in> set ms. f m \<le> f x"
  shows "\<exists>h t. sort_key f ms = h # t \<and> f h = (f m :: nat)"
proof -
  have mem: "set (sort_key f ms) = set ms" by simp
  with assms(1) obtain h t where ht: "sort_key f ms = h # t"
    by (cases "sort_key f ms") auto
  have "sorted (map f (sort_key f ms))" by (rule sorted_sort_key)
  with ht have le: "\<forall>x \<in> set t. f h \<le> f x" by simp
  from mem ht assms(1) have "m = h \<or> m \<in> set t" by auto
  with le have "f h \<le> f m" by auto
  moreover from mem ht have "h \<in> set ms" by auto
  with assms(2) have "f m \<le> f h" by simp
  ultimately have "f h = f m" by simp
  with ht show ?thesis by simp
qed

section \<open>The loops\<close>

lemma assign_columns_shape:
  "assign_columns r off src = Inr r' \<Longrightarrow> shape r' = shape r \<and> np_dtype r' = np_dtype r"
  by (auto simp: assign_columns_def split: if_splits list.splits)

lemma fill_lanes_shape:
  "fill_lanes nm rw L w buf i ms r = Inr r' \<Longrightarrow> shape r' = shape r \<and> np_dtype r' = np_dtype r"
proof (induction ms arbitrary: i r)
  case Nil
  then show ?case by simp
next
  case (Cons m ms)
  then show ?case
    by (auto split: if_splits sum.splits dest!: assign_columns_shape)
qed

lemma fill_lane_sets_shape:
  "fill_lane_sets nm rw bufs d r = Inr r' \<Longrightarrow> shape r' = shape r \<and> np_dtype r' = np_dtype r"
proof (induction d arbitrary: r)
  case Nil
  then show ?case by simp
next
  case (Cons e d)
  obtain key ms where e: "e = (key, ms)" by (cases e)
  from Cons.prems show ?case
    unfolding e
    by (auto simp: Let_def split: option.splits prod.splits sum.splits
        dest!: fill_lanes_shape Cons.IH)
qed

lemma alloc_Inr:
  "alloc spec n = Inr r \<Longrightarrow>
     shape r = (n, spec_length spec) \<and> map_of dtype_table (spec_type spec) = Some (np_dtype r) \<and>
     cells r = replicate n (replicate (spec_length spec) None)"
  by (auto simp: alloc_def split: option.splits)

lemma assemble_regions_Inr:
  "assemble_regions md bufs n S = Inr regs \<Longrightarrow> list_all2 (assembled md bufs n) S regs"
proof (induction S arbitrary: regs)
  case Nil
  then show ?case by simp
next
  case (Cons e S)
  obtain nm d where e: "e = (nm, d)" by (cases e)
  from Cons.prems show ?case
    unfolding e
    by (auto simp: assembled_def split: option.splits sum.splits dest!: Cons.IH)
qed

lemma assembled_shape:
  "assembled md bufs n src reg \<Longrightarrow>
     \<exists>spec. map_of md (fst reg) = Some spec \<and> shape (snd reg) = (n, spec_length spec) \<and>
       map_of dtype_table (spec_type spec) = Some (np_dtype (snd reg))"
  by (auto simp: assembled_def dest!: fill_lane_sets_shape alloc_Inr)

lemma assemble_regions_keys:
  "assemble_regions md bufs n S = Inr regs \<Longrightarrow> map fst regs = map fst S"
proof -
  assume "assemble_regions md bufs n S = Inr regs"
  then have "list_all2 (assembled md bufs n) S regs" by (rule assemble_regions_Inr)
  then show ?thesis
    by (induction rule: list_all2_induct) (auto simp: assembled_def)
qed

lemma list_all2_right_member: "list_all2 P xs ys \<Longrightarrow> y \<in> set ys \<Longrightarrow> \<exists>x \<in> set xs. P x y"
  by (induction rule: list_all2_induct) auto

lemma list_all2_left_member: "list_all2 P xs ys \<Longrightarrow> x \<in> set xs \<Longrightarrow> \<exists>y \<in> set ys. P x y"
  by (induction rule: list_all2_induct) auto

lemma assemble_regions_member:
  assumes "assemble_regions md bufs n S = Inr regs" "reg \<in> set regs"
  shows "\<exists>src \<in> set S. assembled md bufs n src reg"
proof -
  from assms(1) have "list_all2 (assembled md bufs n) S regs" by (rule assemble_regions_Inr)
  with assms(2) show ?thesis
    by (blast dest: list_all2_right_member)
qed

lemma assemble_regions_source:
  assumes "assemble_regions md bufs n S = Inr regs" "src \<in> set S"
  shows "\<exists>reg \<in> set regs. assembled md bufs n src reg"
proof -
  from assms(1) have "list_all2 (assembled md bufs n) S regs" by (rule assemble_regions_Inr)
  with assms(2) show ?thesis
    by (blast dest: list_all2_left_member)
qed

lemma extract_Inr:
  assumes "extract_memory_regions md ro bufs = Inr regs"
  shows "\<exists>n. infer_num_shots (group_sources md ro) bufs = Inr n \<and>
             assemble_regions md bufs n (group_sources md ro) = Inr regs"
  using assms by (auto simp: extract_memory_regions_def Let_def split: sum.splits)

lemma alloc_unknown:
  "spec_type spec \<notin> {''BIT'', ''INTEGER'', ''REAL'', ''FLOAT''} \<Longrightarrow>
   alloc spec n = Inl (UnexpectedMemoryType (spec_type spec))"
  by (simp add: alloc_def dtype_table_def)

lemma group_sources_lookup:
  assumes "map_of md nm = Some spec"
  shows "\<exists>d. (nm, d) \<in> set (group_sources md ro)"
proof -
  have "nm \<in> set (map fst (group_sources md ro))"
    using map_of_keys [OF assms] by (simp add: group_sources_keys)
  then show ?thesis by auto
qed

section \<open>Decoding a buffer\<close>

text \<open>
  C7. \<open>decode_buffer\<close> answers a complex array for the tag "complex" and an array of 32-bit
  integers for the tag "integer", each holding what the register's accessor returned; for
  every other tag it answers the empty integer array, of length 0, whatever the payload is
  and without an error. Its answer is determined by the tag and the payload.
\<close>

theorem decode_buffer_cases:
  "(dtype b = ''complex'' \<longrightarrow> to_complex32 (data b) = Inr zs \<longrightarrow>
      decode_buffer b = Inr (Complex64 (Array1 zs))) \<and>
   (dtype b = ''integer'' \<longrightarrow> to_i32 (data b) = Inr xs \<longrightarrow>
      decode_buffer b = Inr (Int32 (Array1 xs))) \<and>
   (dtype b \<noteq> ''complex'' \<longrightarrow> dtype b \<noteq> ''integer'' \<longrightarrow>
      decode_buffer b = Inr (Int32 (Array1 [])) \<and> buffer_shape0 (Int32 (Array1 [])) = 0) \<and>
   (dtype b = dtype b' \<longrightarrow> data b = data b' \<longrightarrow> decode_buffer b = decode_buffer b')"
  by (simp add: decode_buffer_def)

theorem decode_buffer_cases_witness:
  "decode_buffer
     \<lparr>dtype = ''complex'',
      data = \<lparr>to_complex32 = Inr [Complex 1 2], to_i32 = Inl RegisterError\<rparr>\<rparr>
     = Inr (Complex64 (Array1 [Complex 1 2])) \<and>
   decode_buffer
     \<lparr>dtype = ''integer'',
      data = \<lparr>to_complex32 = Inl RegisterError, to_i32 = Inr [1, 0, - 1]\<rparr>\<rparr>
     = Inr (Int32 (Array1 [1, 0, - 1])) \<and>
   decode_buffer
     \<lparr>dtype = ''real'',
      data = \<lparr>to_complex32 = Inl RegisterError, to_i32 = Inl RegisterError\<rparr>\<rparr>
     = Inr (Int32 (Array1 []))"
  using
    decode_buffer_cases
      [of "\<lparr>dtype = ''complex'',
            data = \<lparr>to_complex32 = Inr [Complex 1 2], to_i32 = Inl RegisterError\<rparr>\<rparr>"
          "[Complex 1 2]"]
    decode_buffer_cases
      [of "\<lparr>dtype = ''integer'',
            data = \<lparr>to_complex32 = Inl RegisterError, to_i32 = Inr [1, 0, - 1]\<rparr>\<rparr>"
          _ "[1, 0, - 1]"]
    decode_buffer_cases
      [of "\<lparr>dtype = ''real'',
            data = \<lparr>to_complex32 = Inl RegisterError, to_i32 = Inl RegisterError\<rparr>\<rparr>"]
  by simp

section \<open>Stale readout sources\<close>

text \<open>
  C8. An entry of the readout sources whose region is not declared is dropped: with the
  entry anywhere in the dictionary, \<open>_extract_memory_regions\<close> returns exactly what it
  returns without it, the same regions or the same error.
\<close>

theorem stale_reference_tolerance:
  assumes "name mref \<notin> fst ` set memory_descriptors"
  shows "extract_memory_regions memory_descriptors (ro1 @ (mref, key) # ro2) buffers =
         extract_memory_regions memory_descriptors (ro1 @ ro2) buffers"
proof -
  have "name (fst (mref, key)) \<notin> set (map fst (init_sources memory_descriptors))"
    using assms by (simp add: init_sources_keys)
  then have "group_sources memory_descriptors (ro1 @ (mref, key) # ro2) =
        group_sources memory_descriptors (ro1 @ ro2)"
    unfolding group_sources_def by (rule fold_add_source_stale)
  then show ?thesis by (simp add: extract_memory_regions_def)
qed

theorem stale_reference_tolerance_witness:
  "name \<lparr>name = ''aux'', offset = 0\<rparr>
     \<notin> fst ` set [(''ro'', \<lparr>spec_type = ''BIT'', spec_length = 1\<rparr>)] \<and>
   extract_memory_regions [(''ro'', \<lparr>spec_type = ''BIT'', spec_length = 1\<rparr>)]
     ([(\<lparr>name = ''ro'', offset = 0\<rparr>, ''q0'')] @ (\<lparr>name = ''aux'', offset = 0\<rparr>, ''q1'') # [])
     [(''q0'', Int32 (Array1 [1, 0]))] =
   extract_memory_regions [(''ro'', \<lparr>spec_type = ''BIT'', spec_length = 1\<rparr>)]
     ([(\<lparr>name = ''ro'', offset = 0\<rparr>, ''q0'')] @ [])
     [(''q0'', Int32 (Array1 [1, 0]))]"
proof -
  have stale: "name \<lparr>name = ''aux'', offset = 0\<rparr>
     \<notin> fst ` set [(''ro'', \<lparr>spec_type = ''BIT'', spec_length = 1\<rparr>)]"
    by simp
  show ?thesis
    using stale stale_reference_tolerance [OF stale] by blast
qed

section \<open>The result of a run without buffers\<close>

text \<open>
  C9. When no buffer came back, \<open>get_result\<close> answers the single region "ro", an \<open>int64\<close>
  array of shape \<open>(0, 0)\<close>, if the program has no readout sources, and the empty region
  map, without an error, if it has some.
\<close>

theorem empty_result_fallback:
  "get_result memory_descriptors [] [] =
     Inr [(''ro'', \<lparr>np_dtype = int64, shape = (0, 0), cells = []\<rparr>)] \<and>
   (ro_sources \<noteq> [] \<longrightarrow> get_result memory_descriptors ro_sources [] = Inr [])"
  by (simp add: get_result_def zeros_0_0_def)

theorem empty_result_fallback_witness:
  "get_result [(''ro'', \<lparr>spec_type = ''BIT'', spec_length = 1\<rparr>)]
     [(\<lparr>name = ''ro'', offset = 0\<rparr>, ''q0'')] [] = Inr []"
  using empty_result_fallback
    [of "[(''ro'', \<lparr>spec_type = ''BIT'', spec_length = 1\<rparr>)]"
        "[(\<lparr>name = ''ro'', offset = 0\<rparr>, ''q0'')]"]
  by simp

section \<open>Where the number of shots cannot be inferred\<close>

text \<open>
  C10. \<open>_extract_memory_regions\<close> ends with \<open>StopIteration\<close> when no region is declared,
  and when no readout source names the first declared region, whatever the other regions,
  readout sources and buffers are.
\<close>

theorem shot_count_inference_partial:
  "extract_memory_regions [] ro_sources buffers = Inl StopIteration \<and>
   ((\<forall>e \<in> set ro_sources. name (fst e) \<noteq> nm) \<longrightarrow>
      extract_memory_regions ((nm, spec) # rest) ro_sources buffers = Inl StopIteration)"
proof (intro conjI impI)
  have "group_sources [] ro_sources = []"
    using group_sources_keys [of "[]" ro_sources] by simp
  then show "extract_memory_regions [] ro_sources buffers = Inl StopIteration"
    by (simp add: extract_memory_regions_def infer_num_shots_def)
next
  assume "\<forall>e \<in> set ro_sources. name (fst e) \<noteq> nm"
  then obtain S where "group_sources ((nm, spec) # rest) ro_sources = (nm, []) # S"
    using fold_add_source_head [of ro_sources nm "[]" "init_sources rest"]
    by (auto simp: group_sources_def init_sources_def)
  then show "extract_memory_regions ((nm, spec) # rest) ro_sources buffers = Inl StopIteration"
    by (simp add: extract_memory_regions_def infer_num_shots_def)
qed

theorem shot_count_inference_partial_witness:
  "extract_memory_regions
     [(''unused'', \<lparr>spec_type = ''REAL'', spec_length = 2\<rparr>),
      (''ro'', \<lparr>spec_type = ''BIT'', spec_length = 1\<rparr>)]
     [(\<lparr>name = ''ro'', offset = 0\<rparr>, ''q0'')]
     [(''q0'', Int32 (Array1 [1, 0]))] = Inl StopIteration"
  using shot_count_inference_partial
    [where ro_sources = "[(\<lparr>name = ''ro'', offset = 0\<rparr>, ''q0'')]"
       and nm = "''unused''" and spec = "\<lparr>spec_type = ''REAL'', spec_length = 2\<rparr>"
       and rest = "[(''ro'', \<lparr>spec_type = ''BIT'', spec_length = 1\<rparr>)]"
       and buffers = "[(''q0'', Int32 (Array1 [1, 0]))]"]
  by simp

section \<open>Widening complex samples\<close>

text \<open>
  C4, as the code has it. A one-axis complex buffer becomes two real columns, the real part
  and then the imaginary part of each sample, so \<open>[1+2j, 3+4j]\<close> becomes
  \<open>[[1, 2], [3, 4]]\<close>. A two-axis complex buffer of width \<open>w\<close> becomes \<open>2 * w\<close> real
  columns: the \<open>w\<close> real parts of a row followed by its \<open>w\<close> imaginary parts.
\<close>

theorem complex_widening:
  "prepare_buffer (Complex64 (Array1 zs)) =
     (2, map (\<lambda>z. [FloatVal (Re z), FloatVal (Im z)]) zs) \<and>
   prepare_buffer (Complex64 (Array2 w rows)) =
     (2 * w, map (\<lambda>row. map (\<lambda>z. FloatVal (Re z)) row @ map (\<lambda>z. FloatVal (Im z)) row) rows) \<and>
   prepare_buffer (Complex64 (Array1 [Complex 1 2, Complex 3 4])) =
     (2, [[FloatVal 1, FloatVal 2], [FloatVal 3, FloatVal 4]])"
  by (simp add: column_stack_real_imag_def comp_def)

text \<open>
  For a buffer of width 2 the two parts of a sample are not adjacent: the row
  \<open>[1+2j, 3+4j]\<close> becomes \<open>[1, 3, 2, 4]\<close>.
\<close>

theorem complex_adjacency_counterexample:
  "prepare_buffer (Complex64 (Array2 2 [[Complex 1 2, Complex 3 4]])) =
     (4, [[FloatVal 1, FloatVal 3, FloatVal 2, FloatVal 4]]) \<and>
   prepare_buffer (Complex64 (Array2 2 [[Complex 1 2, Complex 3 4]])) \<noteq>
     (4, [[FloatVal 1, FloatVal 2, FloatVal 3, FloatVal 4]])"
  by (simp add: column_stack_real_imag_def)

section \<open>Allocation\<close>

lemma assemble_regions_append:
  "assemble_regions md bufs n (earlier @ later) =
     (case assemble_regions md bufs n earlier of
        Inl e \<Rightarrow> Inl e
      | Inr regs1 \<Rightarrow>
          (case assemble_regions md bufs n later of
             Inl e \<Rightarrow> Inl e
           | Inr regs2 \<Rightarrow> Inr (regs1 @ regs2)))"
proof (induction earlier)
  case Nil
  then show ?case by (simp split: sum.splits)
next
  case (Cons e earlier)
  obtain nm d where e: "e = (nm, d)" by (cases e)
  show ?case unfolding e using Cons.IH
    by (simp split: option.splits sum.splits)
qed

lemma extract_after_inference:
  "infer_num_shots (group_sources md ro) bufs = Inr n \<Longrightarrow>
   extract_memory_regions md ro bufs = assemble_regions md bufs n (group_sources md ro)"
  by (simp add: extract_memory_regions_def Let_def)

text \<open>
  C6, as the code has it. For a descriptor whose type is none of "BIT", "INTEGER", "REAL",
  "FLOAT", \<open>alloc\<close> raises the error naming the type, and \<open>_extract_memory_regions\<close> with
  such a descriptor in its descriptor map returns no region map. The error of the call is
  that error when the allocation of the descriptor is reached, that is when the number of
  shots has been inferred and the regions before it in \<open>sources\<close> have been assembled, as
  for the first descriptor when a readout source names it and its buffer is there; an
  earlier failure is raised in its place. For "BIT" and "INTEGER" \<open>alloc\<close> returns an
  \<open>int64\<close> array, for "REAL" and "FLOAT" a \<open>float64\<close> array, of shape
  \<open>(num_shots, length)\<close> with every cell uninitialised.
\<close>

theorem unsupported_element_type:
  "(spec_type spec \<notin> {''BIT'', ''INTEGER'', ''REAL'', ''FLOAT''} \<longrightarrow>
      alloc spec num_shots = Inl (UnexpectedMemoryType (spec_type spec)) \<and>
      (map_of memory_descriptors nm = Some spec \<longrightarrow>
         (\<exists>e. extract_memory_regions memory_descriptors ro_sources buffers = Inl e) \<and>
         (group_sources memory_descriptors ro_sources = earlier @ (nm, mref_dict) # later \<and>
          infer_num_shots (group_sources memory_descriptors ro_sources) buffers = Inr n \<and>
          assemble_regions memory_descriptors buffers n earlier = Inr regions_before \<longrightarrow>
            extract_memory_regions memory_descriptors ro_sources buffers =
              Inl (UnexpectedMemoryType (spec_type spec)))) \<and>
      (memory_descriptors = (nm, spec) # rest \<and> first_key nm ro_sources = Some key \<and>
       map_of buffers key = Some b \<longrightarrow>
         extract_memory_regions memory_descriptors ro_sources buffers =
           Inl (UnexpectedMemoryType (spec_type spec)))) \<and>
   (spec_type spec \<in> {''BIT'', ''INTEGER''} \<longrightarrow>
      alloc spec num_shots =
        Inr \<lparr>np_dtype = int64, shape = (num_shots, spec_length spec),
             cells = replicate num_shots (replicate (spec_length spec) None)\<rparr>) \<and>
   (spec_type spec \<in> {''REAL'', ''FLOAT''} \<longrightarrow>
      alloc spec num_shots =
        Inr \<lparr>np_dtype = float64, shape = (num_shots, spec_length spec),
             cells = replicate num_shots (replicate (spec_length spec) None)\<rparr>)"
proof (intro conjI impI)
  assume bad: "spec_type spec \<notin> {''BIT'', ''INTEGER'', ''REAL'', ''FLOAT''}"
  then show "alloc spec num_shots = Inl (UnexpectedMemoryType (spec_type spec))"
    by (rule alloc_unknown)
  assume md: "map_of memory_descriptors nm = Some spec"
  show "\<exists>e. extract_memory_regions memory_descriptors ro_sources buffers = Inl e"
  proof (cases "extract_memory_regions memory_descriptors ro_sources buffers")
    case (Inl e)
    then show ?thesis by blast
  next
    case (Inr regs)
    then obtain n' where asm: "assemble_regions memory_descriptors buffers n'
        (group_sources memory_descriptors ro_sources) = Inr regs"
      using extract_Inr by blast
    from md obtain d where "(nm, d) \<in> set (group_sources memory_descriptors ro_sources)"
      using group_sources_lookup by blast
    with asm obtain reg where "assembled memory_descriptors buffers n' (nm, d) reg"
      using assemble_regions_source by blast
    then obtain allocated where "alloc spec n' = Inr allocated"
      using md by (auto simp: assembled_def)
    with bad show ?thesis by (simp add: alloc_unknown)
  qed
  assume h: "group_sources memory_descriptors ro_sources = earlier @ (nm, mref_dict) # later \<and>
          infer_num_shots (group_sources memory_descriptors ro_sources) buffers = Inr n \<and>
          assemble_regions memory_descriptors buffers n earlier = Inr regions_before"
  have "assemble_regions memory_descriptors buffers n ((nm, mref_dict) # later) =
      Inl (UnexpectedMemoryType (spec_type spec))"
    using md alloc_unknown [OF bad] by simp
  with h have "assemble_regions memory_descriptors buffers n (earlier @ (nm, mref_dict) # later) =
      Inl (UnexpectedMemoryType (spec_type spec))"
    by (simp add: assemble_regions_append)
  moreover have "extract_memory_regions memory_descriptors ro_sources buffers =
      assemble_regions memory_descriptors buffers n (earlier @ (nm, mref_dict) # later)"
  proof -
    from h have g: "group_sources memory_descriptors ro_sources = earlier @ (nm, mref_dict) # later"
      and i: "infer_num_shots (group_sources memory_descriptors ro_sources) buffers = Inr n"
      by blast+
    from extract_after_inference [OF i] show ?thesis unfolding g .
  qed
  ultimately show "extract_memory_regions memory_descriptors ro_sources buffers =
      Inl (UnexpectedMemoryType (spec_type spec))"
    by simp
next
  assume bad: "spec_type spec \<notin> {''BIT'', ''INTEGER'', ''REAL'', ''FLOAT''}"
  assume c: "memory_descriptors = (nm, spec) # rest \<and> first_key nm ro_sources = Some key \<and>
       map_of buffers key = Some b"
  let ?n = "buffer_shape0 b div length (lane_refs nm key ro_sources)"
  from c have md: "memory_descriptors = (nm, spec) # rest"
    and fk: "first_key nm ro_sources = Some key" and bm: "map_of buffers key = Some b"
    by blast+
  have inf: "infer_num_shots (group_sources memory_descriptors ro_sources) buffers = Inr ?n"
    unfolding md using fk bm by (rule infer_num_shots_head)
  from group_sources_head [OF fk] obtain d S'
    where S: "group_sources memory_descriptors ro_sources =
      (nm, (key, lane_refs nm key ro_sources) # d) # S'"
    unfolding md by blast
  have "assemble_regions memory_descriptors buffers ?n
      ((nm, (key, lane_refs nm key ro_sources) # d) # S') =
      Inl (UnexpectedMemoryType (spec_type spec))"
    using md alloc_unknown [OF bad] by simp
  with extract_after_inference [OF inf] S
  show "extract_memory_regions memory_descriptors ro_sources buffers =
      Inl (UnexpectedMemoryType (spec_type spec))"
    by simp
next
  assume "spec_type spec \<in> {''BIT'', ''INTEGER''}"
  then show "alloc spec num_shots =
        Inr \<lparr>np_dtype = int64, shape = (num_shots, spec_length spec),
             cells = replicate num_shots (replicate (spec_length spec) None)\<rparr>"
    by (auto simp: alloc_def dtype_table_def)
next
  assume "spec_type spec \<in> {''REAL'', ''FLOAT''}"
  then show "alloc spec num_shots =
        Inr \<lparr>np_dtype = float64, shape = (num_shots, spec_length spec),
             cells = replicate num_shots (replicate (spec_length spec) None)\<rparr>"
    by (auto simp: alloc_def dtype_table_def)
qed

theorem unsupported_element_type_witness:
  "alloc \<lparr>spec_type = ''OCTAL'', spec_length = 1\<rparr> 2 = Inl (UnexpectedMemoryType ''OCTAL'') \<and>
   extract_memory_regions
     [(''ro'', \<lparr>spec_type = ''BIT'', spec_length = 1\<rparr>),
      (''bad'', \<lparr>spec_type = ''OCTAL'', spec_length = 1\<rparr>)]
     [(\<lparr>name = ''ro'', offset = 0\<rparr>, ''q0'')] [(''q0'', Int32 (Array1 [1, 0]))] =
     Inl (UnexpectedMemoryType ''OCTAL'') \<and>
   alloc \<lparr>spec_type = ''BIT'', spec_length = 3\<rparr> 2 =
     Inr \<lparr>np_dtype = int64, shape = (2, 3),
          cells = [[None, None, None], [None, None, None]]\<rparr> \<and>
   alloc \<lparr>spec_type = ''REAL'', spec_length = 3\<rparr> 2 =
     Inr \<lparr>np_dtype = float64, shape = (2, 3),
          cells = [[None, None, None], [None, None, None]]\<rparr>"
proof -
  have g: "group_sources
      [(''ro'', \<lparr>spec_type = ''BIT'', spec_length = 1\<rparr>),
       (''bad'', \<lparr>spec_type = ''OCTAL'', spec_length = 1\<rparr>)]
      [(\<lparr>name = ''ro'', offset = 0\<rparr>, ''q0'')] =
      [(''ro'', [(''q0'', [\<lparr>name = ''ro'', offset = 0\<rparr>])])] @ (''bad'', []) # []"
    by code_simp
  have i: "infer_num_shots (group_sources
      [(''ro'', \<lparr>spec_type = ''BIT'', spec_length = 1\<rparr>),
       (''bad'', \<lparr>spec_type = ''OCTAL'', spec_length = 1\<rparr>)]
      [(\<lparr>name = ''ro'', offset = 0\<rparr>, ''q0'')]) [(''q0'', Int32 (Array1 [1, 0]))] = Inr 2"
    by code_simp
  have a: "assemble_regions
      [(''ro'', \<lparr>spec_type = ''BIT'', spec_length = 1\<rparr>),
       (''bad'', \<lparr>spec_type = ''OCTAL'', spec_length = 1\<rparr>)]
      [(''q0'', Int32 (Array1 [1, 0]))] 2
      [(''ro'', [(''q0'', [\<lparr>name = ''ro'', offset = 0\<rparr>])])] =
      Inr [(''ro'', \<lparr>np_dtype = int64, shape = (2, 1),
             cells = [[Some (IntVal 1)], [Some (IntVal 0)]]\<rparr>)]"
    by code_simp
  have r: "replicate 2 (replicate 3 (None :: scalar option)) =
      [[None, None, None], [None, None, None]]"
    by code_simp
  show ?thesis
    using g i a r
      unsupported_element_type
        [where spec = "\<lparr>spec_type = ''OCTAL'', spec_length = 1\<rparr>" and num_shots = 2
           and memory_descriptors = "[(''ro'', \<lparr>spec_type = ''BIT'', spec_length = 1\<rparr>),
              (''bad'', \<lparr>spec_type = ''OCTAL'', spec_length = 1\<rparr>)]"
           and nm = "''bad''" and ro_sources = "[(\<lparr>name = ''ro'', offset = 0\<rparr>, ''q0'')]"
           and buffers = "[(''q0'', Int32 (Array1 [1, 0]))]"
           and earlier = "[(''ro'', [(''q0'', [\<lparr>name = ''ro'', offset = 0\<rparr>])])]"
           and mref_dict = "[]" and later = "[]" and n = 2
           and regions_before = "[(''ro'', \<lparr>np_dtype = int64, shape = (2, 1),
             cells = [[Some (IntVal 1)], [Some (IntVal 0)]]\<rparr>)]"]
      unsupported_element_type
        [where spec = "\<lparr>spec_type = ''BIT'', spec_length = 3\<rparr>" and num_shots = 2]
      unsupported_element_type
        [where spec = "\<lparr>spec_type = ''REAL'', spec_length = 3\<rparr>" and num_shots = 2]
    by simp
qed

text \<open>
  The descriptor "bad" has the type "OCTAL", but no readout source names it and it is the
  first descriptor: the call fails on line 90, before any allocation.
\<close>

theorem unsupported_type_counterexample:
  "extract_memory_regions
     [(''bad'', \<lparr>spec_type = ''OCTAL'', spec_length = 1\<rparr>),
      (''ro'', \<lparr>spec_type = ''BIT'', spec_length = 1\<rparr>)]
     [(\<lparr>name = ''ro'', offset = 0\<rparr>, ''q0'')] [(''q0'', Int32 (Array1 [1, 0]))] =
   Inl StopIteration"
  by code_simp

section \<open>Declared regions without readout sources\<close>

lemma update_other_member:
  "(a, b) \<in> set (AList.update k v al) \<Longrightarrow> a \<noteq> k \<Longrightarrow> (a, b) \<in> set al"
  by (induction al) (auto split: if_splits)

lemma add_source_unreferenced:
  "(nm, d) \<in> set (add_source e S) \<Longrightarrow> name (fst e) \<noteq> nm \<Longrightarrow> (nm, d) \<in> set S"
  by (cases e) (auto simp: add_source_def split: option.splits dest: update_other_member)

lemma fold_add_source_unreferenced:
  "(nm, d) \<in> set (fold add_source ro S) \<Longrightarrow> \<forall>e \<in> set ro. name (fst e) \<noteq> nm \<Longrightarrow>
   (nm, d) \<in> set S"
  by (induction ro arbitrary: S) (auto dest: add_source_unreferenced)

lemma group_sources_unreferenced:
  assumes "(nm, d) \<in> set (group_sources md ro)" "\<forall>e \<in> set ro. name (fst e) \<noteq> nm"
  shows "d = []"
proof -
  from assms have "(nm, d) \<in> set (init_sources md)"
    unfolding group_sources_def by (rule fold_add_source_unreferenced)
  then show ?thesis by (auto simp: init_sources_def)
qed

lemma group_sources_map_of:
  assumes "map_of md nm = Some spec"
  shows "\<exists>d. map_of (group_sources md ro) nm = Some d"
proof -
  have "nm \<in> set (map fst (group_sources md ro))"
    using map_of_keys [OF assms] by (simp add: group_sources_keys)
  then have "map_of (group_sources md ro) nm \<noteq> None"
    by (simp add: map_of_eq_None_iff)
  then show ?thesis by blast
qed

lemma assembled_lookup:
  "list_all2 (assembled md bufs n) S regs \<Longrightarrow> map_of S nm = Some d \<Longrightarrow>
   \<exists>r. map_of regs nm = Some r \<and> assembled md bufs n (nm, d) (nm, r)"
  by (induction rule: list_all2_induct) (auto simp: assembled_def split: if_splits)

text \<open>
  C5, as the code has it. \<open>sources\<close> has every declared region as a key, and the loop of
  line 93 allocates a region for each of them. When \<open>_extract_memory_regions\<close> returns, a
  declared region that no readout source names is a key of the result; its value is the
  array as \<open>alloc\<close> made it for the inferred number of shots, with every cell
  uninitialised.
\<close>

theorem declared_regions_allocated:
  assumes "extract_memory_regions memory_descriptors ro_sources buffers = Inr regions"
    and "map_of memory_descriptors nm = Some spec"
    and "\<forall>e \<in> set ro_sources. name (fst e) \<noteq> nm"
  shows "\<exists>n d. infer_num_shots (group_sources memory_descriptors ro_sources) buffers = Inr n \<and>
    map_of dtype_table (spec_type spec) = Some d \<and>
    map_of regions nm =
      Some \<lparr>np_dtype = d, shape = (n, spec_length spec),
            cells = replicate n (replicate (spec_length spec) None)\<rparr>"
proof -
  let ?S = "group_sources memory_descriptors ro_sources"
  from assms(1) obtain n where inf: "infer_num_shots ?S buffers = Inr n"
    and asm: "assemble_regions memory_descriptors buffers n ?S = Inr regions"
    using extract_Inr by blast
  from assms(2) obtain d where d: "map_of ?S nm = Some d"
    using group_sources_map_of by blast
  then have "(nm, d) \<in> set ?S" by (rule map_of_SomeD)
  then have empty: "d = []" using assms(3) by (rule group_sources_unreferenced)
  from asm have "list_all2 (assembled memory_descriptors buffers n) ?S regions"
    by (rule assemble_regions_Inr)
  from assembled_lookup [OF this d] obtain r where r: "map_of regions nm = Some r"
    and a: "assembled memory_descriptors buffers n (nm, d) (nm, r)"
    by blast
  from a assms(2) empty have al: "alloc spec n = Inr r"
    by (auto simp: assembled_def)
  then obtain dt where dt: "map_of dtype_table (spec_type spec) = Some dt"
    and "r = \<lparr>np_dtype = dt, shape = (n, spec_length spec),
            cells = replicate n (replicate (spec_length spec) None)\<rparr>"
    by (auto simp: alloc_def split: option.splits)
  with inf r show ?thesis by blast
qed

theorem declared_regions_allocated_witness:
  "extract_memory_regions
     [(''ro'', \<lparr>spec_type = ''BIT'', spec_length = 1\<rparr>),
      (''unused'', \<lparr>spec_type = ''REAL'', spec_length = 2\<rparr>)]
     [(\<lparr>name = ''ro'', offset = 0\<rparr>, ''q0'')]
     [(''q0'', Int32 (Array1 [1, 0, 1]))] =
   Inr [(''ro'', \<lparr>np_dtype = int64, shape = (3, 1),
          cells = [[Some (IntVal 1)], [Some (IntVal 0)], [Some (IntVal 1)]]\<rparr>),
        (''unused'', \<lparr>np_dtype = float64, shape = (3, 2),
          cells = [[None, None], [None, None], [None, None]]\<rparr>)] \<and>
   (\<exists>n d. infer_num_shots (group_sources
       [(''ro'', \<lparr>spec_type = ''BIT'', spec_length = 1\<rparr>),
        (''unused'', \<lparr>spec_type = ''REAL'', spec_length = 2\<rparr>)]
       [(\<lparr>name = ''ro'', offset = 0\<rparr>, ''q0'')])
       [(''q0'', Int32 (Array1 [1, 0, 1]))] = Inr n \<and>
     map_of dtype_table (spec_type \<lparr>spec_type = ''REAL'', spec_length = 2\<rparr>) = Some d \<and>
     map_of [(''ro'', \<lparr>np_dtype = int64, shape = (3, 1),
          cells = [[Some (IntVal 1)], [Some (IntVal 0)], [Some (IntVal 1)]]\<rparr>),
        (''unused'', \<lparr>np_dtype = float64, shape = (3, 2),
          cells = [[None, None], [None, None], [None, None]]\<rparr>)] ''unused'' =
       Some \<lparr>np_dtype = d,
             shape = (n, spec_length \<lparr>spec_type = ''REAL'', spec_length = 2\<rparr>),
             cells = replicate n
               (replicate (spec_length \<lparr>spec_type = ''REAL'', spec_length = 2\<rparr>) None)\<rparr>)"
proof -
  have ex: "extract_memory_regions
     [(''ro'', \<lparr>spec_type = ''BIT'', spec_length = 1\<rparr>),
      (''unused'', \<lparr>spec_type = ''REAL'', spec_length = 2\<rparr>)]
     [(\<lparr>name = ''ro'', offset = 0\<rparr>, ''q0'')]
     [(''q0'', Int32 (Array1 [1, 0, 1]))] =
   Inr [(''ro'', \<lparr>np_dtype = int64, shape = (3, 1),
          cells = [[Some (IntVal 1)], [Some (IntVal 0)], [Some (IntVal 1)]]\<rparr>),
        (''unused'', \<lparr>np_dtype = float64, shape = (3, 2),
          cells = [[None, None], [None, None], [None, None]]\<rparr>)]"
    by code_simp
  have md: "map_of [(''ro'', \<lparr>spec_type = ''BIT'', spec_length = 1\<rparr>),
      (''unused'', \<lparr>spec_type = ''REAL'', spec_length = 2\<rparr>)] ''unused'' =
      Some \<lparr>spec_type = ''REAL'', spec_length = 2\<rparr>"
    by simp
  have un: "\<forall>e \<in> set [(\<lparr>name = ''ro'', offset = 0\<rparr>, ''q0'')]. name (fst e) \<noteq> ''unused''"
    by simp
  from ex declared_regions_allocated [OF ex md un] show ?thesis by (rule conjI)
qed

text \<open>
  The region "unused" is declared, no readout source names it, and it is a key of the
  result.
\<close>

theorem unused_region_counterexample:
  "extract_memory_regions
     [(''ro'', \<lparr>spec_type = ''BIT'', spec_length = 2\<rparr>),
      (''unused'', \<lparr>spec_type = ''REAL'', spec_length = 2\<rparr>)]
     [(\<lparr>name = ''ro'', offset = 1\<rparr>, ''q0''), (\<lparr>name = ''ro'', offset = 0\<rparr>, ''q0'')]
     [(''q0'', Int32 (Array1 [1, 2, 3, 4]))] =
   Inr [(''ro'', \<lparr>np_dtype = int64, shape = (2, 2),
          cells = [[Some (IntVal 1), Some (IntVal 2)], [Some (IntVal 3), Some (IntVal 4)]]\<rparr>),
        (''unused'', \<lparr>np_dtype = float64, shape = (2, 2),
          cells = [[None, None], [None, None]]\<rparr>)]"
  by code_simp

section \<open>The number of shots\<close>

text \<open>
  C1. The lane set that \<open>_extract_memory_regions\<close> picks is that of the first declared
  region and of the buffer key of the first readout source naming that region. When there
  is such a source and its buffer, the number of shots is the first-axis length of that
  buffer divided by the number of references of the lane set; the regions are assembled
  with that number, and when the call returns, its result has every declared region, each
  with that number of rows. For a buffer of shape \<open>(12, 1)\<close> read by three references the
  number is 4.
\<close>

theorem shot_count_derivation:
  assumes "memory_descriptors = (nm, spec) # rest"
    and "first_key nm ro_sources = Some key"
    and "map_of buffers key = Some b"
  shows "infer_num_shots (group_sources memory_descriptors ro_sources) buffers =
      Inr (buffer_shape0 b div length (lane_refs nm key ro_sources)) \<and>
    extract_memory_regions memory_descriptors ro_sources buffers =
      assemble_regions memory_descriptors buffers
        (buffer_shape0 b div length (lane_refs nm key ro_sources))
        (group_sources memory_descriptors ro_sources) \<and>
    (\<forall>regions. extract_memory_regions memory_descriptors ro_sources buffers = Inr regions \<longrightarrow>
       map fst regions = map fst memory_descriptors \<and>
       (\<forall>reg \<in> set regions.
          fst (shape (snd reg)) =
            buffer_shape0 b div length (lane_refs nm key ro_sources)))"
proof -
  let ?S = "group_sources memory_descriptors ro_sources"
  let ?n = "buffer_shape0 b div length (lane_refs nm key ro_sources)"
  from group_sources_head [OF assms(2)] obtain d S'
    where S: "?S = (nm, (key, lane_refs nm key ro_sources) # d) # S'"
    unfolding assms(1) by blast
  have inf: "infer_num_shots ?S buffers = Inr ?n"
    using assms(3) by (simp add: S infer_num_shots_def)
  then have ex: "extract_memory_regions memory_descriptors ro_sources buffers =
      assemble_regions memory_descriptors buffers ?n ?S"
    by (simp add: extract_memory_regions_def Let_def)
  have "map fst regions = map fst memory_descriptors \<and>
       (\<forall>reg \<in> set regions. fst (shape (snd reg)) = ?n)"
    if "extract_memory_regions memory_descriptors ro_sources buffers = Inr regions"
    for regions
  proof
    from that ex have asm: "assemble_regions memory_descriptors buffers ?n ?S = Inr regions"
      by simp
    show "map fst regions = map fst memory_descriptors"
      using assemble_regions_keys [OF asm] by (simp add: group_sources_keys)
    show "\<forall>reg \<in> set regions. fst (shape (snd reg)) = ?n"
    proof
      fix reg assume "reg \<in> set regions"
      with asm obtain src where "assembled memory_descriptors buffers ?n src reg"
        using assemble_regions_member by blast
      from assembled_shape [OF this] show "fst (shape (snd reg)) = ?n" by auto
    qed
  qed
  with inf ex show ?thesis by blast
qed

theorem shot_count_derivation_witness:
  "infer_num_shots (group_sources
     [(''ro'', \<lparr>spec_type = ''BIT'', spec_length = 3\<rparr>)]
     [(\<lparr>name = ''ro'', offset = 2\<rparr>, ''q0''), (\<lparr>name = ''ro'', offset = 0\<rparr>, ''q0''),
      (\<lparr>name = ''ro'', offset = 1\<rparr>, ''q0'')])
     [(''q0'', Int32 (Array2 1 [[1], [2], [3], [4], [5], [6], [7], [8], [9], [10], [11], [12]]))] =
     Inr 4 \<and>
   extract_memory_regions
     [(''ro'', \<lparr>spec_type = ''BIT'', spec_length = 3\<rparr>)]
     [(\<lparr>name = ''ro'', offset = 2\<rparr>, ''q0''), (\<lparr>name = ''ro'', offset = 0\<rparr>, ''q0''),
      (\<lparr>name = ''ro'', offset = 1\<rparr>, ''q0'')]
     [(''q0'', Int32 (Array2 1 [[1], [2], [3], [4], [5], [6], [7], [8], [9], [10], [11], [12]]))] =
   Inr [(''ro'', \<lparr>np_dtype = int64, shape = (4, 3),
          cells = [[Some (IntVal 1), Some (IntVal 2), Some (IntVal 3)],
             [Some (IntVal 4), Some (IntVal 5), Some (IntVal 6)],
             [Some (IntVal 7), Some (IntVal 8), Some (IntVal 9)],
             [Some (IntVal 10), Some (IntVal 11), Some (IntVal 12)]]\<rparr>)]"
proof -
  have fk: "first_key ''ro''
     [(\<lparr>name = ''ro'', offset = 2\<rparr>, ''q0''), (\<lparr>name = ''ro'', offset = 0\<rparr>, ''q0''),
      (\<lparr>name = ''ro'', offset = 1\<rparr>, ''q0'')] = Some ''q0''"
    by (simp add: first_key_def)
  have bm: "map_of
     [(''q0'', Int32 (Array2 1 [[1], [2], [3], [4], [5], [6], [7], [8], [9], [10], [11], [12]]))]
     ''q0'' =
     Some (Int32 (Array2 1 [[1], [2], [3], [4], [5], [6], [7], [8], [9], [10], [11], [12]]))"
    by simp
  have n: "buffer_shape0
       (Int32 (Array2 1 [[1], [2], [3], [4], [5], [6], [7], [8], [9], [10], [11], [12]])) div
     length (lane_refs ''ro'' ''q0''
       [(\<lparr>name = ''ro'', offset = 2\<rparr>, ''q0''), (\<lparr>name = ''ro'', offset = 0\<rparr>, ''q0''),
        (\<lparr>name = ''ro'', offset = 1\<rparr>, ''q0'')]) = 4"
    by code_simp
  have asm: "assemble_regions
     [(''ro'', \<lparr>spec_type = ''BIT'', spec_length = 3\<rparr>)]
     [(''q0'', Int32 (Array2 1 [[1], [2], [3], [4], [5], [6], [7], [8], [9], [10], [11], [12]]))]
     4
     (group_sources
       [(''ro'', \<lparr>spec_type = ''BIT'', spec_length = 3\<rparr>)]
       [(\<lparr>name = ''ro'', offset = 2\<rparr>, ''q0''), (\<lparr>name = ''ro'', offset = 0\<rparr>, ''q0''),
        (\<lparr>name = ''ro'', offset = 1\<rparr>, ''q0'')]) =
   Inr [(''ro'', \<lparr>np_dtype = int64, shape = (4, 3),
          cells = [[Some (IntVal 1), Some (IntVal 2), Some (IntVal 3)],
             [Some (IntVal 4), Some (IntVal 5), Some (IntVal 6)],
             [Some (IntVal 7), Some (IntVal 8), Some (IntVal 9)],
             [Some (IntVal 10), Some (IntVal 11), Some (IntVal 12)]]\<rparr>)]"
    by code_simp
  from shot_count_derivation
      [where spec = "\<lparr>spec_type = ''BIT'', spec_length = 3\<rparr>" and rest = "[]", OF refl fk bm]
  show ?thesis
    unfolding n asm by blast
qed

section \<open>Lanes that do not fit their region\<close>

lemma fill_lanes_fits:
  "fill_lanes nm rw L w buf i ms r = Inr r' \<Longrightarrow> m \<in> set ms \<Longrightarrow> offset m + w \<le> rw"
proof (induction ms arbitrary: i r)
  case Nil
  then show ?case by simp
next
  case (Cons a ms)
  then show ?case
    by (auto split: if_splits sum.splits)
qed

lemma fill_lane_sets_fits:
  "fill_lane_sets nm rw bufs d r = Inr r' \<Longrightarrow> (key, ms) \<in> set d \<Longrightarrow> m \<in> set ms \<Longrightarrow>
   map_of bufs key = Some b \<Longrightarrow> offset m + fst (prepare_buffer b) \<le> rw"
proof (induction d arbitrary: r)
  case Nil
  then show ?case by simp
next
  case (Cons e d)
  obtain k' ms' where e: "e = (k', ms')" by (cases e)
  from Cons.prems(1) obtain b' w buf r1 where b': "map_of bufs k' = Some b'"
    and pb: "prepare_buffer b' = (w, buf)"
    and f1: "fill_lanes nm rw (length ms') w buf 0 (sort_key offset ms') r = Inr r1"
    and f2: "fill_lane_sets nm rw bufs d r1 = Inr r'"
    unfolding e by (auto simp: Let_def split: option.splits prod.splits sum.splits)
  show ?case
  proof (cases "(key, ms) = (k', ms')")
    case True
    with b' Cons.prems(4) have "b' = b" by simp
    moreover have "m \<in> set (sort_key offset ms')" using True Cons.prems(3) by simp
    ultimately show ?thesis using fill_lanes_fits [OF f1] pb by simp
  next
    case False
    with Cons.prems(2) e have "(key, ms) \<in> set d" by auto
    then show ?thesis using Cons.IH [OF f2] Cons.prems(3,4) by blast
  qed
qed

lemma fill_lanes_append:
  "fill_lanes nm rw L w buf i (pre @ post) r =
     (case fill_lanes nm rw L w buf i pre r of
        Inl e \<Rightarrow> Inl e
      | Inr stored \<Rightarrow> fill_lanes nm rw L w buf (i + length pre) post stored)"
proof (induction pre arbitrary: i r)
  case Nil
  then show ?case by simp
next
  case (Cons m pre)
  then show ?case by (simp split: sum.splits)
qed

lemma fill_lane_sets_append:
  "fill_lane_sets nm rw bufs (sets_before @ sets_after) r =
     (case fill_lane_sets nm rw bufs sets_before r of
        Inl e \<Rightarrow> Inl e
      | Inr stored \<Rightarrow> fill_lane_sets nm rw bufs sets_after stored)"
proof (induction sets_before arbitrary: r)
  case Nil
  then show ?case by simp
next
  case (Cons e sets_before)
  obtain key ms where e: "e = (key, ms)" by (cases e)
  show ?case unfolding e using Cons.IH
    by (simp add: Let_def split: option.splits prod.splits sum.splits)
qed

text \<open>
  C3, as the code has it. Take a readout source at offset \<open>o\<close> whose buffer has the width
  \<open>W\<close> (after widening), in a region of declared length \<open>len\<close>, with \<open>o + W > len\<close>. A call
  of \<open>_extract_memory_regions\<close> with such a source returns no region map. The error of the
  call is the one of line 109, naming the region, the range \<open>[o, o + W)\<close> and \<open>len\<close>, when
  the check of that lane is reached: the number of shots has been inferred, the regions
  before it in \<open>sources\<close> have been assembled, its own region has been allocated, the lane
  sets before it in the region have been stored, and so have the lanes before it in the
  sorted lane set. That is so for the lane of least offset in the first lane set of the
  first declared region, when the type of the region is one of the four. An earlier failure
  is raised in its place. A lane at offset 6 of width 2 in a region of length 7, alone in
  its call, gives the error for the range \<open>[6, 8)\<close>.
\<close>

theorem overflow_detection:
  "(group_sources memory_descriptors ro_sources =
      earlier @ (mref_name, sets_before @ (key, mref_list) # sets_after) # later \<and>
    infer_num_shots (group_sources memory_descriptors ro_sources) buffers = Inr num_shots \<and>
    assemble_regions memory_descriptors buffers num_shots earlier = Inr regions_before \<and>
    map_of memory_descriptors mref_name = Some spec \<and>
    alloc spec num_shots = Inr allocated \<and>
    fill_lane_sets mref_name (spec_length spec) buffers sets_before allocated = Inr stored \<and>
    map_of buffers key = Some b \<and>
    prepare_buffer b = (width, buf) \<and>
    sort_key offset mref_list = pre @ mref # post \<and>
    fill_lanes mref_name (spec_length spec) (length mref_list) width buf 0 pre stored = Inr placed \<and>
    offset mref + width > spec_length spec \<longrightarrow>
      extract_memory_regions memory_descriptors ro_sources buffers =
        Inl (RegionOverflow mref_name (offset mref) (offset mref + width) (spec_length spec))) \<and>
   (memory_descriptors = (mref_name, spec) # rest \<and>
    spec_type spec \<in> {''BIT'', ''INTEGER'', ''REAL'', ''FLOAT''} \<and>
    first_key mref_name ro_sources = Some key \<and>
    map_of buffers key = Some b \<and>
    prepare_buffer b = (width, buf) \<and>
    mref \<in> set (lane_refs mref_name key ro_sources) \<and>
    (\<forall>x \<in> set (lane_refs mref_name key ro_sources). offset mref \<le> offset x) \<and>
    offset mref + width > spec_length spec \<longrightarrow>
      extract_memory_regions memory_descriptors ro_sources buffers =
        Inl (RegionOverflow mref_name (offset mref) (offset mref + width) (spec_length spec))) \<and>
   ((m, key') \<in> set ro_sources \<and> map_of memory_descriptors (name m) = Some spec' \<and>
    map_of buffers key' = Some b' \<and> offset m + fst (prepare_buffer b') > spec_length spec' \<longrightarrow>
      (\<exists>e. extract_memory_regions memory_descriptors ro_sources buffers = Inl e))"
proof (intro conjI impI)
  assume h: "group_sources memory_descriptors ro_sources =
      earlier @ (mref_name, sets_before @ (key, mref_list) # sets_after) # later \<and>
    infer_num_shots (group_sources memory_descriptors ro_sources) buffers = Inr num_shots \<and>
    assemble_regions memory_descriptors buffers num_shots earlier = Inr regions_before \<and>
    map_of memory_descriptors mref_name = Some spec \<and>
    alloc spec num_shots = Inr allocated \<and>
    fill_lane_sets mref_name (spec_length spec) buffers sets_before allocated = Inr stored \<and>
    map_of buffers key = Some b \<and>
    prepare_buffer b = (width, buf) \<and>
    sort_key offset mref_list = pre @ mref # post \<and>
    fill_lanes mref_name (spec_length spec) (length mref_list) width buf 0 pre stored = Inr placed \<and>
    offset mref + width > spec_length spec"
  let ?e = "RegionOverflow mref_name (offset mref) (offset mref + width) (spec_length spec)"
  have "fill_lanes mref_name (spec_length spec) (length mref_list) width buf
      (0 + length pre) (mref # post) placed = Inl ?e"
    using h by simp
  with h have lanes: "fill_lanes mref_name (spec_length spec) (length mref_list) width buf 0
      (sort_key offset mref_list) stored = Inl ?e"
    by (simp only: fill_lanes_append sum.case)
  have "fill_lane_sets mref_name (spec_length spec) buffers ((key, mref_list) # sets_after) stored = Inl ?e"
    using h lanes by (simp add: Let_def)
  with h have "fill_lane_sets mref_name (spec_length spec) buffers
      (sets_before @ (key, mref_list) # sets_after) allocated = Inl ?e"
    by (simp only: fill_lane_sets_append sum.case)
  with h have "assemble_regions memory_descriptors buffers num_shots
      ((mref_name, sets_before @ (key, mref_list) # sets_after) # later) = Inl ?e"
    by simp
  with h have "assemble_regions memory_descriptors buffers num_shots
      (earlier @ (mref_name, sets_before @ (key, mref_list) # sets_after) # later) = Inl ?e"
    by (simp only: assemble_regions_append sum.case)
  moreover have "extract_memory_regions memory_descriptors ro_sources buffers =
      assemble_regions memory_descriptors buffers num_shots
        (earlier @ (mref_name, sets_before @ (key, mref_list) # sets_after) # later)"
  proof -
    from h have g: "group_sources memory_descriptors ro_sources =
        earlier @ (mref_name, sets_before @ (key, mref_list) # sets_after) # later"
      and i: "infer_num_shots (group_sources memory_descriptors ro_sources) buffers =
        Inr num_shots"
      by blast+
    from extract_after_inference [OF i] show ?thesis unfolding g .
  qed
  ultimately show "extract_memory_regions memory_descriptors ro_sources buffers = Inl ?e"
    by simp
next
  assume c: "memory_descriptors = (mref_name, spec) # rest \<and>
    spec_type spec \<in> {''BIT'', ''INTEGER'', ''REAL'', ''FLOAT''} \<and>
    first_key mref_name ro_sources = Some key \<and>
    map_of buffers key = Some b \<and>
    prepare_buffer b = (width, buf) \<and>
    mref \<in> set (lane_refs mref_name key ro_sources) \<and>
    (\<forall>x \<in> set (lane_refs mref_name key ro_sources). offset mref \<le> offset x) \<and>
    offset mref + width > spec_length spec"
  let ?e = "RegionOverflow mref_name (offset mref) (offset mref + width) (spec_length spec)"
  let ?lanes = "lane_refs mref_name key ro_sources"
  let ?n = "buffer_shape0 b div length ?lanes"
  from c have md: "memory_descriptors = (mref_name, spec) # rest"
    and ty: "spec_type spec \<in> {''BIT'', ''INTEGER'', ''REAL'', ''FLOAT''}"
    and fk: "first_key mref_name ro_sources = Some key"
    and bm: "map_of buffers key = Some b"
    and pb: "prepare_buffer b = (width, buf)"
    and mem: "mref \<in> set ?lanes"
    and least: "\<forall>x \<in> set ?lanes. offset mref \<le> offset x"
    and over: "offset mref + width > spec_length spec"
    by blast+
  have inf: "infer_num_shots (group_sources memory_descriptors ro_sources) buffers = Inr ?n"
    unfolding md using fk bm by (rule infer_num_shots_head)
  from group_sources_head [OF fk] obtain d S'
    where S: "group_sources memory_descriptors ro_sources = (mref_name, (key, ?lanes) # d) # S'"
    unfolding md by blast
  from ty obtain r where al: "alloc spec ?n = Inr r"
    by (auto simp: alloc_def dtype_table_def)
  from sort_key_head_least [OF mem least] obtain h t
    where st: "sort_key offset ?lanes = h # t" and oh: "offset h = offset mref"
    by blast
  have "fill_lanes mref_name (spec_length spec) (length ?lanes) width buf 0 (h # t) r = Inl ?e"
    using oh over by simp
  then have "fill_lane_sets mref_name (spec_length spec) buffers ((key, ?lanes) # d) r = Inl ?e"
    using bm pb st by (simp add: Let_def)
  then have "assemble_regions memory_descriptors buffers ?n
      ((mref_name, (key, ?lanes) # d) # S') = Inl ?e"
    using md al by simp
  with extract_after_inference [OF inf] S
  show "extract_memory_regions memory_descriptors ro_sources buffers = Inl ?e"
    by simp
next
  assume h: "(m, key') \<in> set ro_sources \<and> map_of memory_descriptors (name m) = Some spec' \<and>
    map_of buffers key' = Some b' \<and> offset m + fst (prepare_buffer b') > spec_length spec'"
  let ?S = "group_sources memory_descriptors ro_sources"
  show "\<exists>e. extract_memory_regions memory_descriptors ro_sources buffers = Inl e"
  proof (cases "extract_memory_regions memory_descriptors ro_sources buffers")
    case (Inl e)
    then show ?thesis by blast
  next
    case (Inr regs)
    then obtain n where asm: "assemble_regions memory_descriptors buffers n ?S = Inr regs"
      using extract_Inr by blast
    from h obtain d where d: "map_of ?S (name m) = Some d"
      using group_sources_map_of by blast
    have ml: "m \<in> set (lane_refs (name m) key' ro_sources)"
      using h by (force simp: lane_refs_def)
    with d grouped_group_sources [of ro_sources memory_descriptors]
    have lk: "map_of d key' = Some (lane_refs (name m) key' ro_sources)"
      unfolding grouped_def by force
    from d have "(name m, d) \<in> set ?S" by (rule map_of_SomeD)
    with asm obtain reg where "assembled memory_descriptors buffers n (name m, d) reg"
      using assemble_regions_source by blast
    then obtain allocated where
      "fill_lane_sets (name m) (spec_length spec') buffers d allocated = Inr (snd reg)"
      using h by (auto simp: assembled_def)
    from fill_lane_sets_fits [OF this map_of_SomeD [OF lk] ml] h
    show ?thesis by force
  qed
qed

theorem overflow_detection_witness:
  "extract_memory_regions [(''ro'', \<lparr>spec_type = ''REAL'', spec_length = 3\<rparr>)]
     [(\<lparr>name = ''ro'', offset = 2\<rparr>, ''q0''), (\<lparr>name = ''ro'', offset = 0\<rparr>, ''q0'')]
     [(''q0'', Complex64 (Array1 [Complex 1 2, Complex 3 4]))] =
     Inl (RegionOverflow ''ro'' 2 4 3) \<and>
   (\<exists>e. extract_memory_regions [(''ro'', \<lparr>spec_type = ''BIT'', spec_length = 7\<rparr>)]
     [(\<lparr>name = ''ro'', offset = 6\<rparr>, ''q0'')]
     [(''q0'', Complex64 (Array1 [Complex 1 2]))] = Inl e) \<and>
   extract_memory_regions [(''ro'', \<lparr>spec_type = ''BIT'', spec_length = 7\<rparr>)]
     [(\<lparr>name = ''ro'', offset = 6\<rparr>, ''q0'')]
     [(''q0'', Complex64 (Array1 [Complex 1 2]))] = Inl (RegionOverflow ''ro'' 6 8 7)"
proof -
  have g: "group_sources [(''ro'', \<lparr>spec_type = ''REAL'', spec_length = 3\<rparr>)]
      [(\<lparr>name = ''ro'', offset = 2\<rparr>, ''q0''), (\<lparr>name = ''ro'', offset = 0\<rparr>, ''q0'')] =
      [] @ (''ro'', [] @ (''q0'', [\<lparr>name = ''ro'', offset = 2\<rparr>,
          \<lparr>name = ''ro'', offset = 0\<rparr>]) # []) # []"
    by code_simp
  have i: "infer_num_shots (group_sources [(''ro'', \<lparr>spec_type = ''REAL'', spec_length = 3\<rparr>)]
      [(\<lparr>name = ''ro'', offset = 2\<rparr>, ''q0''), (\<lparr>name = ''ro'', offset = 0\<rparr>, ''q0'')])
      [(''q0'', Complex64 (Array1 [Complex 1 2, Complex 3 4]))] = Inr 1"
    by code_simp
  have a: "assemble_regions [(''ro'', \<lparr>spec_type = ''REAL'', spec_length = 3\<rparr>)]
      [(''q0'', Complex64 (Array1 [Complex 1 2, Complex 3 4]))] 1 [] = Inr []"
    by simp
  have md: "map_of [(''ro'', \<lparr>spec_type = ''REAL'', spec_length = 3\<rparr>)] ''ro'' =
      Some \<lparr>spec_type = ''REAL'', spec_length = 3\<rparr>"
    by simp
  have al: "alloc \<lparr>spec_type = ''REAL'', spec_length = 3\<rparr> 1 =
      Inr \<lparr>np_dtype = float64, shape = (1, 3), cells = [[None, None, None]]\<rparr>"
    by code_simp
  have fs: "fill_lane_sets ''ro'' (spec_length \<lparr>spec_type = ''REAL'', spec_length = 3\<rparr>)
      [(''q0'', Complex64 (Array1 [Complex 1 2, Complex 3 4]))] []
      \<lparr>np_dtype = float64, shape = (1, 3), cells = [[None, None, None]]\<rparr> =
      Inr \<lparr>np_dtype = float64, shape = (1, 3), cells = [[None, None, None]]\<rparr>"
    by simp
  have bm: "map_of [(''q0'', Complex64 (Array1 [Complex 1 2, Complex 3 4]))] ''q0'' =
      Some (Complex64 (Array1 [Complex 1 2, Complex 3 4]))"
    by simp
  have pb: "prepare_buffer (Complex64 (Array1 [Complex 1 2, Complex 3 4])) =
      (2, [[FloatVal 1, FloatVal 2], [FloatVal 3, FloatVal 4]])"
    by code_simp
  have so: "sort_key offset [\<lparr>name = ''ro'', offset = 2\<rparr>, \<lparr>name = ''ro'', offset = 0\<rparr>] =
      [\<lparr>name = ''ro'', offset = 0\<rparr>] @ \<lparr>name = ''ro'', offset = 2\<rparr> # []"
    by code_simp
  have fl: "fill_lanes ''ro'' (spec_length \<lparr>spec_type = ''REAL'', spec_length = 3\<rparr>)
      (length [\<lparr>name = ''ro'', offset = 2\<rparr>, \<lparr>name = ''ro'', offset = 0\<rparr>]) 2
      [[FloatVal 1, FloatVal 2], [FloatVal 3, FloatVal 4]] 0 [\<lparr>name = ''ro'', offset = 0\<rparr>]
      \<lparr>np_dtype = float64, shape = (1, 3), cells = [[None, None, None]]\<rparr> =
      Inr \<lparr>np_dtype = float64, shape = (1, 3),
           cells = [[Some (FloatVal 1), Some (FloatVal 2), None]]\<rparr>"
    by code_simp
  have ov: "offset \<lparr>name = ''ro'', offset = 2\<rparr> + 2 >
      spec_length \<lparr>spec_type = ''REAL'', spec_length = 3\<rparr>"
    by simp
  have first: "extract_memory_regions [(''ro'', \<lparr>spec_type = ''REAL'', spec_length = 3\<rparr>)]
     [(\<lparr>name = ''ro'', offset = 2\<rparr>, ''q0''), (\<lparr>name = ''ro'', offset = 0\<rparr>, ''q0'')]
     [(''q0'', Complex64 (Array1 [Complex 1 2, Complex 3 4]))] =
     Inl (RegionOverflow ''ro'' (offset \<lparr>name = ''ro'', offset = 2\<rparr>)
       (offset \<lparr>name = ''ro'', offset = 2\<rparr> + 2)
       (spec_length \<lparr>spec_type = ''REAL'', spec_length = 3\<rparr>))"
    using overflow_detection
      [where memory_descriptors = "[(''ro'', \<lparr>spec_type = ''REAL'', spec_length = 3\<rparr>)]"
         and ro_sources = "[(\<lparr>name = ''ro'', offset = 2\<rparr>, ''q0''),
           (\<lparr>name = ''ro'', offset = 0\<rparr>, ''q0'')]"
         and buffers = "[(''q0'', Complex64 (Array1 [Complex 1 2, Complex 3 4]))]"
         and earlier = "[]" and mref_name = "''ro''" and sets_before = "[]" and key = "''q0''"
         and mref_list = "[\<lparr>name = ''ro'', offset = 2\<rparr>, \<lparr>name = ''ro'', offset = 0\<rparr>]"
         and sets_after = "[]" and later = "[]" and num_shots = 1 and regions_before = "[]"
         and spec = "\<lparr>spec_type = ''REAL'', spec_length = 3\<rparr>"
         and allocated = "\<lparr>np_dtype = float64, shape = (1, 3), cells = [[None, None, None]]\<rparr>"
         and stored = "\<lparr>np_dtype = float64, shape = (1, 3), cells = [[None, None, None]]\<rparr>"
         and b = "Complex64 (Array1 [Complex 1 2, Complex 3 4])" and width = 2
         and buf = "[[FloatVal 1, FloatVal 2], [FloatVal 3, FloatVal 4]]"
         and pre = "[\<lparr>name = ''ro'', offset = 0\<rparr>]" and mref = "\<lparr>name = ''ro'', offset = 2\<rparr>"
         and post = "[]"
         and placed = "\<lparr>np_dtype = float64, shape = (1, 3),
           cells = [[Some (FloatVal 1), Some (FloatVal 2), None]]\<rparr>"]
      g i a md al fs bm pb so fl ov
    by blast
  have e: "extract_memory_regions [(''ro'', \<lparr>spec_type = ''BIT'', spec_length = 7\<rparr>)]
     [(\<lparr>name = ''ro'', offset = 6\<rparr>, ''q0'')]
     [(''q0'', Complex64 (Array1 [Complex 1 2]))] = Inl (RegionOverflow ''ro'' 6 8 7)"
    by code_simp
  from first have first': "extract_memory_regions
     [(''ro'', \<lparr>spec_type = ''REAL'', spec_length = 3\<rparr>)]
     [(\<lparr>name = ''ro'', offset = 2\<rparr>, ''q0''), (\<lparr>name = ''ro'', offset = 0\<rparr>, ''q0'')]
     [(''q0'', Complex64 (Array1 [Complex 1 2, Complex 3 4]))] =
     Inl (RegionOverflow ''ro'' 2 4 3)"
    by simp
  have second: "\<exists>e. extract_memory_regions [(''ro'', \<lparr>spec_type = ''BIT'', spec_length = 7\<rparr>)]
     [(\<lparr>name = ''ro'', offset = 6\<rparr>, ''q0'')]
     [(''q0'', Complex64 (Array1 [Complex 1 2]))] = Inl e"
    using overflow_detection
      [where m = "\<lparr>name = ''ro'', offset = 6\<rparr>" and key' = "''q0''"
         and ro_sources = "[(\<lparr>name = ''ro'', offset = 6\<rparr>, ''q0'')]"
         and memory_descriptors = "[(''ro'', \<lparr>spec_type = ''BIT'', spec_length = 7\<rparr>)]"
         and spec' = "\<lparr>spec_type = ''BIT'', spec_length = 7\<rparr>"
         and buffers = "[(''q0'', Complex64 (Array1 [Complex 1 2]))]"
         and b' = "Complex64 (Array1 [Complex 1 2])"]
    by simp
  from first' second e show ?thesis by blast
qed

text \<open>
  The reference \<open>ro[1]\<close> does not fit the region "ro" of length 1, but the lane before it
  in the lane set, \<open>ro[0]\<close>, fails first: the buffer has three rows for two lanes, so the
  number of shots is 1 and the slice \<open>buf[0::2]\<close> has two rows, which do not broadcast
  into the one row of the region.
\<close>

theorem overflow_preempted_counterexample:
  "extract_memory_regions [(''ro'', \<lparr>spec_type = ''BIT'', spec_length = 1\<rparr>)]
     [(\<lparr>name = ''ro'', offset = 0\<rparr>, ''q0''), (\<lparr>name = ''ro'', offset = 1\<rparr>, ''q0'')]
     [(''q0'', Int32 (Array1 [1, 2, 3]))] = Inl (BroadcastError 2 1)"
  by code_simp

section \<open>Placing the lanes of a region\<close>




















end
